theory Spec2Isabelle
  imports Complex_Main
begin

section \<open>The image cropper: data model\<close>

text \<open>
  The development embeds the geometry and export core of \<^verbatim>\<open>image_cropper.py\<close>:
  the viewport fit of \<^verbatim>\<open>_render_image\<close>, the selection helpers, the three mouse
  callbacks, \<^verbatim>\<open>_canvas_to_image\<close> and \<^verbatim>\<open>_save_crop\<close>.

  Conventions of the embedding.
  \<^item> Pointer coordinates are the integer pixel coordinates of Tk events (\<^verbatim>\<open>event.x\<close>,
    \<^verbatim>\<open>event.y\<close>), so the selection corners are Python ints, modelled as \<open>int\<close>.
  \<^item> Python floats (the scale, image-space coordinates, handle midpoints) are modelled as
    \<open>real\<close>: ideal arithmetic, no rounding error.
  \<^item> The four fields \<^verbatim>\<open>sel_x0, sel_y0, sel_x1, sel_y1\<close> are assigned together
    everywhere in the source (all \<^verbatim>\<open>None\<close> or all numbers), so they are one optional
    4-tuple \<open>sel\<close>; \<^verbatim>\<open>_has_selection\<close> is \<open>sel s \<noteq> None\<close>.
  \<^item> A loaded \<^verbatim>\<open>pil_image\<close> is represented by its size \<open>(width, height)\<close>.
  \<^item> Files written by \<^verbatim>\<open>save_img.save\<close> are appended to the log \<open>written\<close>.
  \<^item> Widgets, status texts, toasts and the config file are not part of the state.
\<close>

type_synonym rect = "int \<times> int \<times> int \<times> int"

record cropper =
  image_path :: "string option"
  pil_image :: "(int \<times> int) option"
  canvas_size :: "int \<times> int"
  scale :: real
  offset_x :: int
  offset_y :: int
  sel :: "rect option"
  drag_mode :: "string option"
  drag_ox :: int
  drag_oy :: int
  drag_sel_snapshot :: "rect option"
  crop_counter :: "string \<rightharpoonup> nat"
  pattern :: string
  overwrite :: bool
  written :: "(string \<times> rect) list"

definition HIT_RADIUS :: real where
  "HIT_RADIUS = 10"

definition DEFAULT_PATTERN :: string where
  "DEFAULT_PATTERN = ''{base}_cr{n}''"

text \<open>The state after \<^verbatim>\<open>__init__\<close> with the default configuration and a canvas of the
  given size.\<close>

definition init :: "int \<times> int \<Rightarrow> cropper" where
  "init cs = \<lparr> image_path = None, pil_image = None, canvas_size = cs, scale = 1,
     offset_x = 0, offset_y = 0, sel = None, drag_mode = None, drag_ox = 0, drag_oy = 0,
     drag_sel_snapshot = None, crop_counter = Map.empty, pattern = DEFAULT_PATTERN,
     overwrite = False, written = [] \<rparr>"

section \<open>Rendering: the viewport fit\<close>

text \<open>Python's \<^verbatim>\<open>int(x)\<close> on a float truncates toward zero.\<close>

definition py_int :: "real \<Rightarrow> int" where
  "py_int x = (if 0 \<le> x then \<lfloor>x\<rfloor> else \<lceil>x\<rceil>)"

text \<open>\<^verbatim>\<open>self.canvas.winfo_width() or 800\<close>: a zero reading is replaced by the default.\<close>

definition or_default :: "int \<Rightarrow> int \<Rightarrow> int" where
  "or_default v d = (if v = 0 then d else v)"

text \<open>
  \<^verbatim>\<open>_render_image\<close>. Without an image it returns at once. The divisions raise
  \<^verbatim>\<open>ZeroDivisionError\<close> for an image with a zero side, before any field is assigned, so
  the state is then unchanged as well.
\<close>

definition render_image :: "cropper \<Rightarrow> cropper" where
  "render_image s =
     (case pil_image s of
        None \<Rightarrow> s
      | Some (img_w, img_h) \<Rightarrow>
          if img_w = 0 \<or> img_h = 0 then s
          else
            let cw = or_default (fst (canvas_size s)) 800;
                ch = or_default (snd (canvas_size s)) 600;
                sc = min (real_of_int cw / real_of_int img_w)
                         (real_of_int ch / real_of_int img_h);
                new_w = py_int (real_of_int img_w * sc);
                new_h = py_int (real_of_int img_h * sc)
            in s\<lparr> scale := sc,
                  offset_x := (cw - new_w) div 2,
                  offset_y := (ch - new_h) div 2 \<rparr>)"

section \<open>Selection helpers\<close>

definition norm_sel :: "rect \<Rightarrow> rect" where
  "norm_sel r = (case r of (x0, y0, x1, y1) \<Rightarrow> (min x0 x1, min y0 y1, max x0 x1, max y0 y1))"

text \<open>\<^verbatim>\<open>_handles\<close>: a dict, iterated in insertion order, hence an association list.\<close>

definition handles :: "rect \<Rightarrow> (string \<times> real \<times> real) list" where
  "handles r =
     (case norm_sel r of (lx, ty, rx, b_y) \<Rightarrow>
        let mx = (real_of_int lx + real_of_int rx) / 2;
            my = (real_of_int ty + real_of_int b_y) / 2
        in [(''nw'', (real_of_int lx, real_of_int ty)), (''n'', (mx, real_of_int ty)),
            (''ne'', (real_of_int rx, real_of_int ty)),
            (''w'', (real_of_int lx, my)), (''e'', (real_of_int rx, my)),
            (''sw'', (real_of_int lx, real_of_int b_y)), (''s'', (mx, real_of_int b_y)),
            (''se'', (real_of_int rx, real_of_int b_y))])"

definition within_hit :: "int \<Rightarrow> int \<Rightarrow> real \<times> real \<Rightarrow> bool" where
  "within_hit x y h = (case h of (hx, hy) \<Rightarrow>
     \<bar>real_of_int x - hx\<bar> \<le> HIT_RADIUS \<and> \<bar>real_of_int y - hy\<bar> \<le> HIT_RADIUS)"

text \<open>The \<^verbatim>\<open>for\<close> loop of \<^verbatim>\<open>_hit_handle\<close>: return at the first handle hit.\<close>

fun first_hit :: "int \<Rightarrow> int \<Rightarrow> (string \<times> real \<times> real) list \<Rightarrow> string option" where
  "first_hit x y [] = None"
| "first_hit x y ((name, h) # hs) = (if within_hit x y h then Some name else first_hit x y hs)"

definition hit_handle :: "cropper \<Rightarrow> int \<Rightarrow> int \<Rightarrow> string option" where
  "hit_handle s x y = (case sel s of None \<Rightarrow> None | Some r \<Rightarrow> first_hit x y (handles r))"

definition inside_selection :: "cropper \<Rightarrow> int \<Rightarrow> int \<Rightarrow> bool" where
  "inside_selection s x y =
     (case sel s of
        None \<Rightarrow> False
      | Some r \<Rightarrow> (case norm_sel r of (lx, ty, rx, b_y) \<Rightarrow>
          lx \<le> x \<and> x \<le> rx \<and> ty \<le> y \<and> y \<le> b_y))"

definition clear_selection :: "cropper \<Rightarrow> cropper" where
  "clear_selection s = s\<lparr> sel := None, drag_mode := None \<rparr>"

section \<open>Mouse events\<close>

definition on_mouse_down :: "int \<Rightarrow> int \<Rightarrow> cropper \<Rightarrow> cropper" where
  "on_mouse_down x y s =
     (if pil_image s = None then s
      else
        case hit_handle s x y of
          Some handle \<Rightarrow>
            s\<lparr> drag_mode := Some handle, drag_ox := x, drag_oy := y,
               drag_sel_snapshot := map_option norm_sel (sel s) \<rparr>
        | None \<Rightarrow>
            if inside_selection s x y then
              s\<lparr> drag_mode := Some ''move'', drag_ox := x, drag_oy := y,
                 drag_sel_snapshot := sel s \<rparr>
            else
              (clear_selection s)\<lparr> drag_mode := Some ''new'', sel := Some (x, y, x, y) \<rparr>)"

text \<open>
  \<^verbatim>\<open>_on_mouse_drag\<close>. The tests \<^verbatim>\<open>'w' in h\<close> etc. are substring tests with a
  one-character needle, that is membership of the character in the mode string. A move or
  resize mode is only ever set together with a snapshot, and mode \<^verbatim>\<open>'new'\<close> only
  together with a selection; in the other (unreachable) states the source raises while
  unpacking \<^verbatim>\<open>None\<close> or leaves the selection absent, and the model leaves the state as
  it is.
\<close>

definition on_mouse_drag :: "int \<Rightarrow> int \<Rightarrow> cropper \<Rightarrow> cropper" where
  "on_mouse_drag x y s =
     (case drag_mode s of
        None \<Rightarrow> s
      | Some h \<Rightarrow>
          if h = ''new'' then
            (case sel s of
               None \<Rightarrow> s
             | Some (x0, y0, x1, y1) \<Rightarrow> s\<lparr> sel := Some (x0, y0, x, y) \<rparr>)
          else if h = ''move'' then
            (case drag_sel_snapshot s of
               None \<Rightarrow> s
             | Some (sx0, sy0, sx1, sy1) \<Rightarrow>
                 let dx = x - drag_ox s; dy = y - drag_oy s
                 in s\<lparr> sel := Some (sx0 + dx, sy0 + dy, sx1 + dx, sy1 + dy) \<rparr>)
          else
            (case drag_sel_snapshot s of
               None \<Rightarrow> s
             | Some (sx0, sy0, sx1, sy1) \<Rightarrow>
                 let dx = x - drag_ox s; dy = y - drag_oy s;
                     sx0 = (if CHR ''w'' \<in> set h then sx0 + dx else sx0);
                     sx1 = (if CHR ''e'' \<in> set h then sx1 + dx else sx1);
                     sy0 = (if CHR ''n'' \<in> set h then sy0 + dy else sy0);
                     sy1 = (if CHR ''s'' \<in> set h then sy1 + dy else sy1)
                 in s\<lparr> sel := Some (sx0, sy0, sx1, sy1) \<rparr>))"

definition on_mouse_up :: "cropper \<Rightarrow> cropper" where
  "on_mouse_up s =
     s\<lparr> sel := map_option norm_sel (sel s), drag_mode := None, drag_sel_snapshot := None \<rparr>"

section \<open>Coordinate conversion\<close>

definition canvas_to_image :: "cropper \<Rightarrow> real \<Rightarrow> real \<Rightarrow> real \<times> real" where
  "canvas_to_image s cx cy =
     ((cx - real_of_int (offset_x s)) / scale s, (cy - real_of_int (offset_y s)) / scale s)"

section \<open>File names\<close>

text \<open>\<^verbatim>\<open>os.path.basename\<close> (POSIX flavour): the part after the last slash.\<close>

definition basename :: "string \<Rightarrow> string" where
  "basename p = rev (takeWhile (\<lambda>c. c \<noteq> CHR ''/'') (rev p))"

text \<open>
  \<^verbatim>\<open>os.path.splitext\<close> on a name without separators: the extension starts at the last
  dot, unless only dots come before it (leading dots do not start an extension).
\<close>

definition splitext :: "string \<Rightarrow> string \<times> string" where
  "splitext p =
     (let suffix = rev (takeWhile (\<lambda>c. c \<noteq> CHR ''.'') (rev p));
          root = take (length p - length suffix - 1) p
      in if CHR ''.'' \<in> set p \<and> (\<exists>c \<in> set root. c \<noteq> CHR ''.'')
         then (root, drop (length root) p)
         else (p, []))"

text \<open>\<^verbatim>\<open>str.lower\<close> on ASCII letters.\<close>

definition lower_char :: "char \<Rightarrow> char" where
  "lower_char c =
     (case map_of (zip ''ABCDEFGHIJKLMNOPQRSTUVWXYZ'' ''abcdefghijklmnopqrstuvwxyz'') c of
        Some d \<Rightarrow> d
      | None \<Rightarrow> c)"

definition lower :: "string \<Rightarrow> string" where
  "lower s = map lower_char s"

definition WRITABLE_EXTS :: "string list" where
  "WRITABLE_EXTS = [''.jpg'', ''.jpeg'', ''.png'', ''.bmp'', ''.tiff'']"

text \<open>Lines 882 to 885 of \<^verbatim>\<open>_save_crop\<close>: the stem and the output extension.\<close>

definition output_ext :: "string \<Rightarrow> string" where
  "output_ext fname =
     (let ext = snd (splitext fname);
          ext = (if ext = [] then ''.png'' else ext)
      in if lower ext \<in> set WRITABLE_EXTS then ext else ''.png'')"

text \<open>\<^verbatim>\<open>str(n)\<close> for a non-negative Python int.\<close>

fun str_nat :: "nat \<Rightarrow> string" where
  "str_nat n =
     (if n < 10 then [''0123456789'' ! n]
      else str_nat (n div 10) @ [''0123456789'' ! (n mod 10)])"

declare str_nat.simps [simp del]

section \<open>The naming pattern\<close>

text \<open>
  \<^verbatim>\<open>pattern.format(base=..., n=..., ext=...)\<close> is Python's built-in formatter. The export
  takes it as a parameter \<open>fmt\<close>, whose result is \<open>None\<close> when the call raises.

  \<open>str_format\<close> is the built-in on the patterns the settings dialog documents: literal
  text, the escapes \<^verbatim>\<open>{{\<close> and \<^verbatim>\<open>}}\<close>, and replacement fields that are a bare name.
  A name that is not a keyword argument raises \<^verbatim>\<open>KeyError\<close> (\<^verbatim>\<open>IndexError\<close> for an
  empty or numeric name, there being no positional arguments); an unmatched brace raises
  \<^verbatim>\<open>ValueError\<close>. A field that uses attribute or index access, a conversion or a format
  specification is handed, with the rest of the pattern, to the parameter \<open>other\<close>.
\<close>

datatype fmt_mode = Literal | Field string

fun str_format ::
  "(string \<Rightarrow> string option) \<Rightarrow> (string \<rightharpoonup> string) \<Rightarrow> fmt_mode \<Rightarrow> string \<Rightarrow> string option"
where
  "str_format other kw Literal [] = Some []"
| "str_format other kw Literal [c] =
     (if c = CHR ''{'' \<or> c = CHR ''}'' then None else Some [c])"
| "str_format other kw Literal (c # d # cs) =
     (if c = CHR ''{'' then
        (if d = CHR ''{'' then map_option ((#) c) (str_format other kw Literal cs)
         else str_format other kw (Field []) (d # cs))
      else if c = CHR ''}'' then
        (if d = CHR ''}'' then map_option ((#) c) (str_format other kw Literal cs)
         else None)
      else map_option ((#) c) (str_format other kw Literal (d # cs)))"
| "str_format other kw (Field acc) [] = None"
| "str_format other kw (Field acc) (c # cs) =
     (if c = CHR ''}'' then
        (case kw (rev acc) of
           None \<Rightarrow> None
         | Some v \<Rightarrow> map_option ((@) v) (str_format other kw Literal cs))
      else if c \<in> set ''{[.!:'' then other (rev acc @ c # cs)
      else str_format other kw (Field (c # acc)) cs)"

definition py_format ::
  "(string \<Rightarrow> string option) \<Rightarrow> string \<Rightarrow> string \<Rightarrow> nat \<Rightarrow> string \<Rightarrow> string option" where
  "py_format other pat base n ext =
     str_format other [''base'' \<mapsto> base, ''n'' \<mapsto> str_nat n, ''ext'' \<mapsto> ext] Literal pat"

section \<open>Saving a crop\<close>

text \<open>\<^verbatim>\<open>dict.get(key, 0)\<close>.\<close>

definition get_count :: "(string \<rightharpoonup> nat) \<Rightarrow> string \<Rightarrow> nat" where
  "get_count m k = (case m k of None \<Rightarrow> 0 | Some c \<Rightarrow> c)"

text \<open>Lines 867 to 874: the selection mapped into image space, truncated and clamped.\<close>

definition crop_box :: "cropper \<Rightarrow> rect \<Rightarrow> int \<times> int \<Rightarrow> rect" where
  "crop_box s r img =
     (case norm_sel r of (lx, ty, rx, b_y) \<Rightarrow>
        let (ix0, iy0) = canvas_to_image s (real_of_int lx) (real_of_int ty);
            (ix1, iy1) = canvas_to_image s (real_of_int rx) (real_of_int b_y);
            left = max 0 (py_int (min ix0 ix1));
            top_y = max 0 (py_int (min iy0 iy1));
            right = min (fst img) (py_int (max ix0 ix1));
            bottom = min (snd img) (py_int (max iy0 iy1))
        in (left, top_y, right, bottom))"

text \<open>What the file system does in one export: whether \<^verbatim>\<open>os.makedirs\<close> and
  \<^verbatim>\<open>save_img.save\<close> succeed.\<close>

record env =
  makedirs_ok :: bool
  save_ok :: bool

datatype outcome =
    NoImage
  | NoSelection
  | Raised
  | SelectionTooSmall
  | FolderCreateFailed
  | WriteFailed string nat
  | Saved string nat string rect
  | Overwritten string nat rect

text \<open>
  \<^verbatim>\<open>_save_crop\<close>. \<open>Raised\<close> stands for the two exceptions the arithmetic and the path
  handling can raise before anything is changed: \<^verbatim>\<open>ZeroDivisionError\<close> in
  \<^verbatim>\<open>_canvas_to_image\<close> for a zero scale, and \<^verbatim>\<open>TypeError\<close> in
  \<^verbatim>\<open>os.path.basename\<close> when no path is set. \<open>WriteFailed\<close> is an exception of
  \<^verbatim>\<open>save_img.save\<close>; it leaves the callback after the counter has been stored.
  \<open>Saved path n name box\<close> and \<open>Overwritten path n box\<close> carry the source path, the crop
  number, and the pixel box; after an overwrite the image is reloaded from the file just
  written, which has the size of the crop.
\<close>

definition save_crop ::
  "(string \<Rightarrow> string \<Rightarrow> nat \<Rightarrow> string \<Rightarrow> string option) \<Rightarrow> env \<Rightarrow> cropper \<Rightarrow> outcome \<times> cropper"
where
  "save_crop fmt e s =
     (case pil_image s of
        None \<Rightarrow> (NoImage, s)
      | Some img \<Rightarrow>
     (case sel s of
        None \<Rightarrow> (NoSelection, s)
      | Some r \<Rightarrow>
          if scale s = 0 then (Raised, s)
          else
            (case crop_box s r img of (left, top_y, right, bottom) \<Rightarrow>
               if right \<le> left \<or> bottom \<le> top_y then (SelectionTooSmall, s)
               else
                 (case image_path s of
                    None \<Rightarrow> (Raised, s)
                  | Some path \<Rightarrow>
                      let base = fst (splitext (basename path));
                          oext = output_ext (basename path)
                      in if \<not> makedirs_ok e then (FolderCreateFailed, s)
                         else
                           let count = get_count (crop_counter s) path + 1;
                               s1 = s\<lparr> crop_counter := (crop_counter s)(path \<mapsto> count) \<rparr>;
                               out_stem = (case fmt (pattern s) base count oext of
                                             Some t \<Rightarrow> t
                                           | None \<Rightarrow> base @ ''_cr'' @ str_nat count);
                               out_name = out_stem @ oext
                           in if \<not> save_ok e then (WriteFailed path count, s1)
                              else if overwrite s then
                                (Overwritten path count (left, top_y, right, bottom),
                                 render_image (clear_selection
                                   (s1\<lparr> written := written s1 @ [(path, (left, top_y, right, bottom))],
                                        pil_image := Some (right - left, bottom - top_y) \<rparr>)))
                              else
                                (Saved path count out_name (left, top_y, right, bottom),
                                 s1\<lparr> written := written s1 @ [(out_name, (left, top_y, right, bottom))] \<rparr>)))))"

section \<open>Sessions: sequences of callbacks\<close>

text \<open>
  A successful \<^verbatim>\<open>_load_image\<close>: the image and its path are stored, the selection is
  cleared and the image is rendered. (A failed load shows a message box and is not an
  action of the model.)
\<close>

definition load_image :: "string \<Rightarrow> int \<times> int \<Rightarrow> cropper \<Rightarrow> cropper" where
  "load_image path img s =
     render_image (clear_selection (s\<lparr> pil_image := Some img, image_path := Some path \<rparr>))"

text \<open>\<^verbatim>\<open>_on_canvas_resize\<close>: the canvas reports its new size and the image is rendered
  again.\<close>

definition on_canvas_resize :: "int \<times> int \<Rightarrow> cropper \<Rightarrow> cropper" where
  "on_canvas_resize cs s = render_image (s\<lparr> canvas_size := cs \<rparr>)"







section \<open>Notions of the specification\<close>

definition sel_width :: "rect \<Rightarrow> int" where
  "sel_width r = (case r of (x0, y0, x1, y1) \<Rightarrow> x1 - x0)"

definition sel_height :: "rect \<Rightarrow> int" where
  "sel_height r = (case r of (x0, y0, x1, y1) \<Rightarrow> y1 - y0)"

definition handle_order :: "string list" where
  "handle_order = [''nw'', ''n'', ''ne'', ''w'', ''e'', ''sw'', ''s'', ''se'']"

text \<open>The export rectangle in the words of the specification: floor on the left and top
  edges, ceiling on the right and bottom edges, then the clamp.\<close>

definition spec_crop_box :: "cropper \<Rightarrow> rect \<Rightarrow> int \<times> int \<Rightarrow> rect" where
  "spec_crop_box s r img =
     (case norm_sel r of (lx, ty, rx, b_y) \<Rightarrow>
        let (ix0, iy0) = canvas_to_image s (real_of_int lx) (real_of_int ty);
            (ix1, iy1) = canvas_to_image s (real_of_int rx) (real_of_int b_y)
        in (max 0 \<lfloor>min ix0 ix1\<rfloor>, max 0 \<lfloor>min iy0 iy1\<rfloor>,
            min (fst img) \<lceil>max ix0 ix1\<rceil>, min (snd img) \<lceil>max iy0 iy1\<rceil>))"

section \<open>Example states\<close>

text \<open>A drag session in progress on a fresh window.\<close>

definition drag_demo :: cropper where
  "drag_demo = (init (800, 600))\<lparr> drag_mode := Some ''move'', drag_ox := 50, drag_oy := 60,
     sel := Some (10, 20, 110, 220), drag_sel_snapshot := Some (10, 20, 110, 220) \<rparr>"

text \<open>The image \<^verbatim>\<open>/pics/base.jpg\<close>, 400 by 300 pixels, loaded into an 800 by 600 canvas.\<close>

definition small_image :: cropper where
  "small_image = load_image ''/pics/base.jpg'' (400, 300) (init (800, 600))"

text \<open>The first scenario of the specification: a 1000 by 800 image in a 500 by 400
  canvas.\<close>

definition scenario :: cropper where
  "scenario = load_image ''/pics/base.jpg'' (1000, 800) (init (500, 400))"

definition all_ok :: env where
  "all_ok = \<lparr> makedirs_ok = True, save_ok = True \<rparr>"

text \<open>A small selection, 30 pixels square, on a fresh window.\<close>

definition tiny_sel :: cropper where
  "tiny_sel = (init (800, 600))\<lparr> sel := Some (0, 0, 30, 30) \<rparr>"

text \<open>The small image with a selection of 5 by 5 canvas pixels, and the same with a
  naming pattern that names an unknown placeholder.\<close>

definition five_sel :: cropper where
  "five_sel = small_image\<lparr> sel := Some (0, 0, 5, 5) \<rparr>"


text \<open>The degenerate selection of the specification's scenario, on the large image.\<close>

definition flat_sel :: cropper where
  "flat_sel = scenario\<lparr> sel := Some (50, 50, 51, 50) \<rparr>"



section \<open>Dragging\<close>

text \<open>
  Claim C7. In move mode a pointer move to \<open>(x, y)\<close> sets the selection to the snapshot
  translated by the delta from the drag origin; the width \<open>x1 - x0\<close> and the height
  \<open>y1 - y0\<close> of the new selection are exactly those of the snapshot.
\<close>

theorem move_preserves_size:
  assumes "drag_mode s = Some ''move''"
    and "drag_sel_snapshot s = Some (sx0, sy0, sx1, sy1)"
  shows "sel (on_mouse_drag x y s) =
           Some (sx0 + (x - drag_ox s), sy0 + (y - drag_oy s),
                 sx1 + (x - drag_ox s), sy1 + (y - drag_oy s))
         \<and> map_option sel_width (sel (on_mouse_drag x y s)) = Some (sel_width (sx0, sy0, sx1, sy1))
         \<and> map_option sel_height (sel (on_mouse_drag x y s)) = Some (sel_height (sx0, sy0, sx1, sy1))"
  using assms by (simp add: on_mouse_drag_def sel_width_def sel_height_def Let_def)

theorem move_preserves_size_witness:
  "drag_mode drag_demo = Some ''move''
   \<and> drag_sel_snapshot drag_demo = Some (10, 20, 110, 220)
   \<and> sel (on_mouse_drag 70 65 drag_demo) = Some (30, 25, 130, 225)
   \<and> map_option sel_width (sel (on_mouse_drag 70 65 drag_demo)) = Some 100
   \<and> map_option sel_height (sel (on_mouse_drag 70 65 drag_demo)) = Some 200"
proof -
  have m: "drag_mode drag_demo = Some ''move''"
    by (simp add: drag_demo_def)
  have n: "drag_sel_snapshot drag_demo = Some (10, 20, 110, 220)"
    by (simp add: drag_demo_def)
  have o: "drag_ox drag_demo = 50" "drag_oy drag_demo = 60"
    by (simp_all add: drag_demo_def)
  show ?thesis
    using move_preserves_size [OF m n, of 70 65] m n o
    by (simp add: sel_width_def sel_height_def)
qed

text \<open>
  Claim C6. In a resize session with snapshot \<open>(sx0, sy0, sx1, sy1)\<close> and pointer delta
  \<open>(dx, dy)\<close>, handle \<open>e\<close> moves only \<open>x1\<close> (by \<open>dx\<close>), handle \<open>nw\<close> moves \<open>x0\<close> by
  \<open>dx\<close> and \<open>y0\<close> by \<open>dy\<close>, handle \<open>n\<close> moves only \<open>y0\<close>; each corner handle moves
  its two edges and each edge-midpoint handle its one edge, and every other edge keeps the
  snapshot's value.
\<close>

theorem resize_handle_isolation:
  assumes "drag_sel_snapshot s = Some (sx0, sy0, sx1, sy1)"
    and "dx = x - drag_ox s" and "dy = y - drag_oy s"
  shows "sel (on_mouse_drag x y (s\<lparr>drag_mode := Some ''e''\<rparr>)) = Some (sx0, sy0, sx1 + dx, sy1)
    \<and> sel (on_mouse_drag x y (s\<lparr>drag_mode := Some ''nw''\<rparr>)) = Some (sx0 + dx, sy0 + dy, sx1, sy1)
    \<and> sel (on_mouse_drag x y (s\<lparr>drag_mode := Some ''n''\<rparr>)) = Some (sx0, sy0 + dy, sx1, sy1)
    \<and> sel (on_mouse_drag x y (s\<lparr>drag_mode := Some ''ne''\<rparr>)) = Some (sx0, sy0 + dy, sx1 + dx, sy1)
    \<and> sel (on_mouse_drag x y (s\<lparr>drag_mode := Some ''w''\<rparr>)) = Some (sx0 + dx, sy0, sx1, sy1)
    \<and> sel (on_mouse_drag x y (s\<lparr>drag_mode := Some ''sw''\<rparr>)) = Some (sx0 + dx, sy0, sx1, sy1 + dy)
    \<and> sel (on_mouse_drag x y (s\<lparr>drag_mode := Some ''s''\<rparr>)) = Some (sx0, sy0, sx1, sy1 + dy)
    \<and> sel (on_mouse_drag x y (s\<lparr>drag_mode := Some ''se''\<rparr>)) = Some (sx0, sy0, sx1 + dx, sy1 + dy)"
  using assms by (simp add: on_mouse_drag_def Let_def)

theorem resize_handle_isolation_witness:
  "drag_sel_snapshot drag_demo = Some (10, 20, 110, 220)
   \<and> sel (on_mouse_drag 70 65 (drag_demo\<lparr>drag_mode := Some ''e''\<rparr>)) = Some (10, 20, 130, 220)
   \<and> sel (on_mouse_drag 70 65 (drag_demo\<lparr>drag_mode := Some ''nw''\<rparr>)) = Some (30, 25, 110, 220)
   \<and> sel (on_mouse_drag 70 65 (drag_demo\<lparr>drag_mode := Some ''n''\<rparr>)) = Some (10, 25, 110, 220)
   \<and> sel (on_mouse_drag 70 65 (drag_demo\<lparr>drag_mode := Some ''se''\<rparr>)) = Some (10, 20, 130, 225)"
proof -
  have n: "drag_sel_snapshot drag_demo = Some (10, 20, 110, 220)"
    by (simp add: drag_demo_def)
  have dx: "(20::int) = 70 - drag_ox drag_demo" and dy: "(5::int) = 65 - drag_oy drag_demo"
    by (simp_all add: drag_demo_def)
  show ?thesis
    using resize_handle_isolation [OF n dx dy] n by simp
qed

section \<open>Hit testing\<close>

text \<open>The loop returns the name at the first index whose point is hit.\<close>

lemma first_hit_Some_iff:
  "first_hit x y hs = Some h \<longleftrightarrow>
     (\<exists>i < length hs. fst (hs ! i) = h \<and> within_hit x y (snd (hs ! i))
        \<and> (\<forall>j < i. \<not> within_hit x y (snd (hs ! j))))"
proof (induction hs)
  case Nil
  show ?case by simp
next
  case (Cons a hs)
  obtain name p where a: "a = (name, p)" by (cases a)
  show ?case
  proof (cases "within_hit x y p")
    case True
    have "(\<exists>i < length (a # hs). fst ((a # hs) ! i) = h \<and> within_hit x y (snd ((a # hs) ! i))
        \<and> (\<forall>j < i. \<not> within_hit x y (snd ((a # hs) ! j)))) \<longleftrightarrow> name = h"
    proof
      assume "\<exists>i < length (a # hs). fst ((a # hs) ! i) = h \<and> within_hit x y (snd ((a # hs) ! i))
        \<and> (\<forall>j < i. \<not> within_hit x y (snd ((a # hs) ! j)))"
      then obtain i where i: "fst ((a # hs) ! i) = h" "\<forall>j < i. \<not> within_hit x y (snd ((a # hs) ! j))"
        by blast
      have "i = 0"
      proof (rule ccontr)
        assume "i \<noteq> 0"
        then have "0 < i" by simp
        with i(2) have "\<not> within_hit x y (snd ((a # hs) ! 0))" by blast
        with True a show False by simp
      qed
      with i(1) a show "name = h" by simp
    next
      assume "name = h"
      with True a show "\<exists>i < length (a # hs). fst ((a # hs) ! i) = h \<and> within_hit x y (snd ((a # hs) ! i))
        \<and> (\<forall>j < i. \<not> within_hit x y (snd ((a # hs) ! j)))"
        by (intro exI [of _ 0]) simp
    qed
    with True a show ?thesis by simp
  next
    case False
    have "(\<exists>i < length (a # hs). fst ((a # hs) ! i) = h \<and> within_hit x y (snd ((a # hs) ! i))
        \<and> (\<forall>j < i. \<not> within_hit x y (snd ((a # hs) ! j)))) \<longleftrightarrow>
       (\<exists>i < length hs. fst (hs ! i) = h \<and> within_hit x y (snd (hs ! i))
        \<and> (\<forall>j < i. \<not> within_hit x y (snd (hs ! j))))" (is "?L \<longleftrightarrow> ?R")
    proof
      assume ?L
      then obtain i where i: "i < length (a # hs)" "fst ((a # hs) ! i) = h"
        "within_hit x y (snd ((a # hs) ! i))" "\<forall>j < i. \<not> within_hit x y (snd ((a # hs) ! j))"
        by blast
      from i(3) False a have "i \<noteq> 0" by (cases i) auto
      then obtain k where k: "i = Suc k" by (cases i) auto
      have "\<forall>j < k. \<not> within_hit x y (snd (hs ! j))"
      proof (intro allI impI)
        fix j assume "j < k"
        then have "Suc j < i" using k by simp
        with i(4) have "\<not> within_hit x y (snd ((a # hs) ! Suc j))" by blast
        then show "\<not> within_hit x y (snd (hs ! j))" by simp
      qed
      with i k show ?R by (intro exI [of _ k]) simp
    next
      assume ?R
      then obtain k where k: "k < length hs" "fst (hs ! k) = h"
        "within_hit x y (snd (hs ! k))" "\<forall>j < k. \<not> within_hit x y (snd (hs ! j))"
        by blast
      have "\<forall>j < Suc k. \<not> within_hit x y (snd ((a # hs) ! j))"
      proof (intro allI impI)
        fix j assume j: "j < Suc k"
        show "\<not> within_hit x y (snd ((a # hs) ! j))"
        proof (cases j)
          case 0
          with False a show ?thesis by simp
        next
          case (Suc m)
          with j k(4) show ?thesis by simp
        qed
      qed
      with k show ?L by (intro exI [of _ "Suc k"]) simp
    qed
    with False a Cons.IH show ?thesis by simp
  qed
qed

lemma first_hit_None_iff:
  "first_hit x y hs = None \<longleftrightarrow> (\<forall>i < length hs. \<not> within_hit x y (snd (hs ! i)))"
proof (induction hs)
  case Nil
  show ?case by simp
next
  case (Cons a hs)
  obtain name p where a: "a = (name, p)" by (cases a)
  have "(\<forall>i < length (a # hs). \<not> within_hit x y (snd ((a # hs) ! i))) \<longleftrightarrow>
     (\<not> within_hit x y p \<and> (\<forall>i < length hs. \<not> within_hit x y (snd (hs ! i))))"
    using a by (auto simp: nth_Cons split: nat.splits)
  with a Cons.IH show ?case by simp
qed

lemma handles_names: "map fst (handles r) = handle_order"
  by (cases r) (simp add: handles_def norm_sel_def handle_order_def Let_def)

lemma handles_length: "length (handles r) = 8"
  using handles_names [of r, THEN arg_cong, of length] by (simp add: handle_order_def)

lemma handles_fst_nth: "i < 8 \<Longrightarrow> fst (handles r ! i) = handle_order ! i"
  using nth_map [of i "handles r" fst] by (simp add: handles_length handles_names)

text \<open>
  Claim C10. The handles are tested in the fixed order nw, n, ne, w, e, sw, s, se, and
  \<^verbatim>\<open>_hit_handle\<close> returns the first one whose point lies within 10 pixels of the
  query point in both axes: it returns handle \<open>h\<close> exactly when \<open>h\<close> is hit and no
  earlier handle is, and no handle exactly when none is hit. On a small selection the edge
  midpoint n therefore wins over the later corner ne.
\<close>

theorem hit_handle_priority:
  assumes "sel s = Some r"
  shows "map fst (handles r) = [''nw'', ''n'', ''ne'', ''w'', ''e'', ''sw'', ''s'', ''se'']
       \<and> (hit_handle s x y = Some h \<longleftrightarrow>
            (\<exists>i < 8. h = handle_order ! i \<and> within_hit x y (snd (handles r ! i))
               \<and> (\<forall>j < i. \<not> within_hit x y (snd (handles r ! j)))))
       \<and> (hit_handle s x y = None \<longleftrightarrow> (\<forall>i < 8. \<not> within_hit x y (snd (handles r ! i))))
       \<and> (within_hit x y (hx, hy) \<longleftrightarrow>
            \<bar>real_of_int x - hx\<bar> \<le> 10 \<and> \<bar>real_of_int y - hy\<bar> \<le> 10)"
proof -
  have a: "map fst (handles r) = [''nw'', ''n'', ''ne'', ''w'', ''e'', ''sw'', ''s'', ''se'']"
    using handles_names [of r] by (simp add: handle_order_def)
  have b: "hit_handle s x y = Some h \<longleftrightarrow>
            (\<exists>i < 8. h = handle_order ! i \<and> within_hit x y (snd (handles r ! i))
               \<and> (\<forall>j < i. \<not> within_hit x y (snd (handles r ! j))))"
    using assms handles_fst_nth [of _ r]
    by (auto simp: hit_handle_def first_hit_Some_iff handles_length)
  have c: "hit_handle s x y = None \<longleftrightarrow> (\<forall>i < 8. \<not> within_hit x y (snd (handles r ! i)))"
    using assms by (simp add: hit_handle_def first_hit_None_iff handles_length)
  have d: "within_hit x y (hx, hy) \<longleftrightarrow>
            \<bar>real_of_int x - hx\<bar> \<le> 10 \<and> \<bar>real_of_int y - hy\<bar> \<le> 10"
    by (simp add: within_hit_def HIT_RADIUS_def)
  from a b c d show ?thesis by blast
qed

theorem hit_handle_priority_witness:
  "sel tiny_sel = Some (0, 0, 30, 30)
   \<and> hit_handle tiny_sel 25 0 = Some ''n''
   \<and> within_hit 25 0 (snd (handles (0, 0, 30, 30) ! 2))
   \<and> fst (handles (0, 0, 30, 30) ! 2) = ''ne''
   \<and> hit_handle tiny_sel 100 100 = None"
proof -
  have s: "sel tiny_sel = Some (0, 0, 30, 30)"
    by (simp add: tiny_sel_def)
  have h: "handles (0, 0, 30, 30) =
      [(''nw'', (0, 0)), (''n'', (15, 0)), (''ne'', (30, 0)), (''w'', (0, 15)),
       (''e'', (30, 15)), (''sw'', (0, 30)), (''s'', (15, 30)), (''se'', (30, 30))]"
    by (simp add: handles_def norm_sel_def Let_def)
  have n: "hit_handle tiny_sel 25 0 = Some ''n''"
    by (simp add: hit_handle_def s h within_hit_def HIT_RADIUS_def)
  have ne: "within_hit 25 0 (snd (handles (0, 0, 30, 30) ! 2))"
    by (simp add: h within_hit_def HIT_RADIUS_def)
  have none: "\<forall>i < 8. \<not> within_hit 100 100 (snd (handles (0, 0, 30, 30) ! i))"
    by (simp add: h within_hit_def HIT_RADIUS_def All_less_Suc2 numeral_eq_Suc)
  show ?thesis
    using hit_handle_priority [OF s, of 100 100] s n ne none h by simp
qed

section \<open>The example states, evaluated\<close>

lemma small_image_fields:
  "pil_image small_image = Some (400, 300)" "canvas_size small_image = (800, 600)"
  "scale small_image = 2" "offset_x small_image = 0" "offset_y small_image = 0"
  "image_path small_image = Some ''/pics/base.jpg''" "sel small_image = None"
  "crop_counter small_image = Map.empty" "pattern small_image = ''{base}_cr{n}''"
  "overwrite small_image = False" "written small_image = []"
  by (simp_all add: small_image_def load_image_def render_image_def clear_selection_def
      init_def or_default_def py_int_def Let_def DEFAULT_PATTERN_def)

lemma scenario_fields:
  "pil_image scenario = Some (1000, 800)" "canvas_size scenario = (500, 400)"
  "scale scenario = 1 / 2" "offset_x scenario = 0" "offset_y scenario = 0"
  "image_path scenario = Some ''/pics/base.jpg''" "sel scenario = None"
  "crop_counter scenario = Map.empty" "pattern scenario = ''{base}_cr{n}''"
  "overwrite scenario = False" "written scenario = []"
  by (simp_all add: scenario_def load_image_def render_image_def clear_selection_def
      init_def or_default_def py_int_def Let_def DEFAULT_PATTERN_def)

section \<open>The output extension\<close>

text \<open>
  Claim C9. A source name without extension gets \<^verbatim>\<open>.png\<close>; an extension that is not,
  compared in lower case, one of \<^verbatim>\<open>.jpg .jpeg .png .bmp .tiff\<close> is replaced by
  \<^verbatim>\<open>.png\<close>; otherwise the source extension is kept as written. In every case the
  output extension, in lower case, is a member of the writable set.
\<close>

theorem output_ext_writable:
  "output_ext f =
     (if snd (splitext f) = [] then ''.png''
      else if lower (snd (splitext f)) \<in> set WRITABLE_EXTS then snd (splitext f)
      else ''.png'')
   \<and> lower (output_ext f) \<in> set WRITABLE_EXTS
   \<and> set WRITABLE_EXTS = {''.jpg'', ''.jpeg'', ''.png'', ''.bmp'', ''.tiff''}"
proof -
  have png: "lower ''.png'' \<in> set WRITABLE_EXTS"
    by (simp add: lower_def lower_char_def WRITABLE_EXTS_def)
  have a: "output_ext f =
     (if snd (splitext f) = [] then ''.png''
      else if lower (snd (splitext f)) \<in> set WRITABLE_EXTS then snd (splitext f)
      else ''.png'')"
    using png by (simp add: output_ext_def Let_def lower_def)
  have b: "lower (output_ext f) \<in> set WRITABLE_EXTS"
    unfolding a using png by simp
  have c: "set WRITABLE_EXTS = {''.jpg'', ''.jpeg'', ''.png'', ''.bmp'', ''.tiff''}"
    by (simp add: WRITABLE_EXTS_def)
  from a b c show ?thesis by blast
qed

theorem output_ext_writable_witness:
  "output_ext ''photo'' = ''.png''
   \<and> output_ext ''anim.gif'' = ''.png''
   \<and> output_ext ''scan.JPG'' = ''.JPG''
   \<and> lower (output_ext ''scan.JPG'') = ''.jpg''
   \<and> lower (output_ext ''scan.JPG'') \<in> set WRITABLE_EXTS"
proof -
  have "snd (splitext ''photo'') = []" "snd (splitext ''anim.gif'') = ''.gif''"
    "snd (splitext ''scan.JPG'') = ''.JPG''"
    by (simp_all add: splitext_def)
  moreover have "lower ''.gif'' \<notin> set WRITABLE_EXTS" "lower ''.JPG'' = ''.jpg''"
    by (simp_all add: lower_def lower_char_def WRITABLE_EXTS_def)
  ultimately show ?thesis
    using output_ext_writable [of "''photo''"] output_ext_writable [of "''anim.gif''"]
      output_ext_writable [of "''scan.JPG''"]
    by (simp add: WRITABLE_EXTS_def)
qed

section \<open>The viewport transform\<close>

lemma render_scale:
  assumes "pil_image s = Some (iw, ih)" "canvas_size s = (cw, ch)"
    and "0 < iw" "0 < ih" "0 < cw" "0 < ch"
  shows "scale (render_image s) = min (real_of_int cw / real_of_int iw) (real_of_int ch / real_of_int ih)"
  using assms by (simp add: render_image_def or_default_def Let_def)

lemma render_scale_pos:
  assumes "pil_image s = Some (iw, ih)" "canvas_size s = (cw, ch)"
    and "0 < iw" "0 < ih" "0 < cw" "0 < ch"
  shows "0 < scale (render_image s)"
  using assms by (simp add: render_scale [OF assms])

text \<open>
  Claim C2. For positive image and canvas dimensions, with scale and offsets as computed by
  the fit, \<^verbatim>\<open>_canvas_to_image\<close> applied to the forward placement
  \<open>(offset_x + ix * scale, offset_y + iy * scale)\<close> of an image point gives back
  \<open>(ix, iy)\<close>. Floats are reals here, so the law is exact.
\<close>

theorem transform_inverse:
  assumes "pil_image s = Some (iw, ih)" "canvas_size s = (cw, ch)"
    and "0 < iw" "0 < ih" "0 < cw" "0 < ch"
  shows "canvas_to_image (render_image s)
           (real_of_int (offset_x (render_image s)) + ix * scale (render_image s))
           (real_of_int (offset_y (render_image s)) + iy * scale (render_image s)) = (ix, iy)"
  using render_scale_pos [OF assms] by (simp add: canvas_to_image_def)

theorem transform_inverse_witness:
  "pil_image small_image = Some (400, 300) \<and> canvas_size small_image = (800, 600)
   \<and> (0::int) < 400 \<and> (0::int) < 300 \<and> (0::int) < 800 \<and> (0::int) < 600
   \<and> canvas_to_image (render_image small_image) 15 6 = (15 / 2, 3)"
proof -
  have r: "scale (render_image small_image) = 2" "offset_x (render_image small_image) = 0"
    "offset_y (render_image small_image) = 0"
    by (simp_all add: small_image_fields render_image_def or_default_def py_int_def Let_def)
  show ?thesis
    using transform_inverse [OF small_image_fields(1) small_image_fields(2), of "15 / 2" 3] r
    by (simp add: small_image_fields)
qed

text \<open>
  Claim C5, as amended. For positive image and canvas dimensions the fit computes
  \<open>scale = min (canvasW / imageW) (canvasH / imageH)\<close>, which is positive; it is at
  most 1 exactly when the canvas is no wider or no taller than the image. An image smaller
  than the canvas in both dimensions is scaled up to fit.
\<close>

theorem fit_scale:
  assumes "pil_image s = Some (iw, ih)" "canvas_size s = (cw, ch)"
    and "0 < iw" "0 < ih" "0 < cw" "0 < ch"
  shows "scale (render_image s) = min (real_of_int cw / real_of_int iw) (real_of_int ch / real_of_int ih)
       \<and> 0 < scale (render_image s)
       \<and> (scale (render_image s) \<le> 1 \<longleftrightarrow> cw \<le> iw \<or> ch \<le> ih)"
proof -
  have "(min (real_of_int cw / real_of_int iw) (real_of_int ch / real_of_int ih) \<le> 1)
      \<longleftrightarrow> cw \<le> iw \<or> ch \<le> ih"
    using assms(3-6) by (simp add: min_le_iff_disj)
  then show ?thesis
    using render_scale [OF assms] render_scale_pos [OF assms] by simp
qed

theorem fit_scale_witness:
  "pil_image scenario = Some (1000, 800) \<and> canvas_size scenario = (500, 400)
   \<and> scale (render_image scenario) = 1 / 2 \<and> scale (render_image scenario) \<le> 1"
  using fit_scale [OF scenario_fields(1) scenario_fields(2)]
  by (simp add: scenario_fields)

text \<open>The claim as stated fails: a 400 by 300 image in an 800 by 600 canvas is shown at
  scale 2.\<close>

theorem fit_scale_counterexample:
  "pil_image small_image = Some (400, 300) \<and> canvas_size small_image = (800, 600)
   \<and> scale (render_image small_image) = 2 \<and> \<not> scale (render_image small_image) \<le> 1"
  by (simp add: small_image_fields render_image_def or_default_def py_int_def Let_def)

section \<open>The export rectangle\<close>

text \<open>Clamped below at zero, truncation toward zero and the floor agree.\<close>

lemma max0_py_int: "max 0 (py_int x) = max 0 \<lfloor>x\<rfloor>"
proof (cases "0 \<le> x")
  case True
  then show ?thesis by (simp add: py_int_def)
next
  case False
  then have "x \<le> 0" by simp
  then have c: "\<lceil>x\<rceil> \<le> 0" by (simp add: ceiling_le_zero)
  have "\<lfloor>x\<rfloor> \<le> \<lceil>x\<rceil>" by (rule floor_le_ceiling)
  with c have f: "\<lfloor>x\<rfloor> \<le> 0" by linarith
  from c have mc: "max 0 \<lceil>x\<rceil> = 0" by (rule max_absorb1)
  from f have mf: "max 0 \<lfloor>x\<rfloor> = 0" by (rule max_absorb1)
  from False have "py_int x = \<lceil>x\<rceil>" by (simp add: py_int_def)
  with mc mf show ?thesis by (simp only:)
qed

lemma crop_box_truncates:
  assumes "norm_sel r = (lx, ty, rx, b_y)"
    and "canvas_to_image s (real_of_int lx) (real_of_int ty) = (ix0, iy0)"
    and "canvas_to_image s (real_of_int rx) (real_of_int b_y) = (ix1, iy1)"
  shows "crop_box s r (w, h) =
           (max 0 \<lfloor>min ix0 ix1\<rfloor>, max 0 \<lfloor>min iy0 iy1\<rfloor>,
            min w (if 0 \<le> max ix0 ix1 then \<lfloor>max ix0 ix1\<rfloor> else \<lceil>max ix0 ix1\<rceil>),
            min h (if 0 \<le> max iy0 iy1 then \<lfloor>max iy0 iy1\<rfloor> else \<lceil>max iy0 iy1\<rceil>))"
proof -
  have "crop_box s r (w, h) =
      (max 0 (py_int (min ix0 ix1)), max 0 (py_int (min iy0 iy1)),
       min w (py_int (max ix0 ix1)), min h (py_int (max iy0 iy1)))"
    using assms by (simp add: crop_box_def Let_def)
  then show ?thesis
    by (simp only: max0_py_int) (simp add: py_int_def)
qed

lemma save_crop_box:
  assumes "pil_image s = Some img" "sel s = Some r"
    and "fst (save_crop fmt e s) = Saved path n name box"
  shows "box = crop_box s r img"
  using assms
  by (auto simp: save_crop_def Let_def split: if_splits option.splits prod.splits)

lemma save_crop_box_over:
  assumes "pil_image s = Some img" "sel s = Some r"
    and "fst (save_crop fmt e s) = Overwritten path n box"
  shows "box = crop_box s r img"
  using assms
  by (auto simp: save_crop_def Let_def split: if_splits option.splits prod.splits)

lemma five_sel_box: "crop_box five_sel (0, 0, 5, 5) (400, 300) = (0, 0, 2, 2)"
  by (simp add: five_sel_def crop_box_def norm_sel_def canvas_to_image_def py_int_def
      small_image_fields Let_def)

lemma five_sel_fields:
  "pil_image five_sel = Some (400, 300)" "sel five_sel = Some (0, 0, 5, 5)" "scale five_sel = 2"
  "image_path five_sel = Some ''/pics/base.jpg''" "crop_counter five_sel = Map.empty"
  "pattern five_sel = ''{base}_cr{n}''" "overwrite five_sel = False" "written five_sel = []"
  by (simp_all add: five_sel_def small_image_fields)

lemma base_jpg_name:
  "basename ''/pics/base.jpg'' = ''base.jpg''" "splitext ''base.jpg'' = (''base'', ''.jpg'')"
  "output_ext ''base.jpg'' = ''.jpg''"
  by (simp_all add: basename_def splitext_def output_ext_def lower_def lower_char_def
      WRITABLE_EXTS_def)

lemma default_name:
  "py_format other ''{base}_cr{n}'' ''base'' (Suc 0) ''.jpg'' = Some ''base_cr1''"
  by (simp add: py_format_def str_nat.simps)

lemma five_sel_saved:
  "fst (save_crop (py_format (\<lambda>p. None)) all_ok five_sel) =
     Saved ''/pics/base.jpg'' 1 ''base_cr1.jpg'' (0, 0, 2, 2)"
  by (simp add: save_crop_def five_sel_fields five_sel_box base_jpg_name default_name
        all_ok_def get_count_def Let_def)

text \<open>
  Claim C1, as amended. With the normalized selection mapped into image space as
  \<open>(ix0, iy0)\<close> and \<open>(ix1, iy1)\<close>, the rectangle a successful export writes is
  \<open>left = max 0 (floor (min ix0 ix1))\<close>, \<open>top = max 0 (floor (min iy0 iy1))\<close>,
  \<open>right = min imageWidth (trunc (max ix0 ix1))\<close> and
  \<open>bottom = min imageHeight (trunc (max iy0 iy1))\<close>, where \<open>trunc\<close> rounds toward
  zero: the right and bottom edges of a selection inside the image are rounded down, not
  up, before clamping.
\<close>

theorem export_box_truncates:
  assumes "pil_image s = Some (w, h)" and "sel s = Some r"
    and "norm_sel r = (lx, ty, rx, b_y)"
    and "canvas_to_image s (real_of_int lx) (real_of_int ty) = (ix0, iy0)"
    and "canvas_to_image s (real_of_int rx) (real_of_int b_y) = (ix1, iy1)"
    and "fst (save_crop fmt e s) = Saved path n name box
         \<or> fst (save_crop fmt e s) = Overwritten path n box"
  shows "box =
           (max 0 \<lfloor>min ix0 ix1\<rfloor>, max 0 \<lfloor>min iy0 iy1\<rfloor>,
            min w (if 0 \<le> max ix0 ix1 then \<lfloor>max ix0 ix1\<rfloor> else \<lceil>max ix0 ix1\<rceil>),
            min h (if 0 \<le> max iy0 iy1 then \<lfloor>max iy0 iy1\<rfloor> else \<lceil>max iy0 iy1\<rceil>))"
proof -
  from assms(6) have "box = crop_box s r (w, h)"
    using save_crop_box [OF assms(1,2)] save_crop_box_over [OF assms(1,2)] by blast
  then show ?thesis
    using crop_box_truncates [OF assms(3-5)] by simp
qed

theorem export_box_truncates_witness:
  "pil_image five_sel = Some (400, 300) \<and> sel five_sel = Some (0, 0, 5, 5)
   \<and> norm_sel (0, 0, 5, 5) = (0, 0, 5, 5)
   \<and> canvas_to_image five_sel 0 0 = (0, 0)
   \<and> canvas_to_image five_sel 5 5 = (5 / 2, 5 / 2)
   \<and> fst (save_crop (py_format (\<lambda>p. None)) all_ok five_sel) =
       Saved ''/pics/base.jpg'' 1 ''base_cr1.jpg'' (0, 0, 2, 2)
   \<and> (0, 0, 2, 2) = (max 0 \<lfloor>min 0 (5 / 2 :: real)\<rfloor>, max 0 \<lfloor>min 0 (5 / 2 :: real)\<rfloor>,
         min 400 \<lfloor>max 0 (5 / 2 :: real)\<rfloor>, min (300::int) \<lfloor>max 0 (5 / 2 :: real)\<rfloor>)"
proof -
  have a: "norm_sel (0, 0, 5, 5) = (0, 0, 5, 5)"
    by (simp add: norm_sel_def)
  have b: "canvas_to_image five_sel (real_of_int 0) (real_of_int 0) = (0, 0)"
    by (simp add: canvas_to_image_def five_sel_def small_image_fields)
  have c: "canvas_to_image five_sel (real_of_int 5) (real_of_int 5) = (5 / 2, 5 / 2)"
    by (simp add: canvas_to_image_def five_sel_def small_image_fields)
  have d: "fst (save_crop (py_format (\<lambda>p. None)) all_ok five_sel) =
       Saved ''/pics/base.jpg'' 1 ''base_cr1.jpg'' (0, 0, 2, 2)
     \<or> fst (save_crop (py_format (\<lambda>p. None)) all_ok five_sel) =
       Overwritten ''/pics/base.jpg'' 1 (0, 0, 2, 2)"
    using five_sel_saved by simp
  show ?thesis
    using export_box_truncates [OF five_sel_fields(1) five_sel_fields(2) a b c d]
      a b c five_sel_saved five_sel_fields(1,2)
    by simp
qed

text \<open>The claim as stated fails: at scale 2 the canvas selection from \<open>(0, 0)\<close> to
  \<open>(5, 5)\<close> maps to \<open>2.5\<close> on the right and bottom; the export writes the box
  \<open>(0, 0, 2, 2)\<close>, where the ceiling would give \<open>(0, 0, 3, 3)\<close>.\<close>

theorem crop_box_ceil_counterexample:
  "fst (save_crop (py_format (\<lambda>p. None)) all_ok five_sel) =
     Saved ''/pics/base.jpg'' 1 ''base_cr1.jpg'' (0, 0, 2, 2)
   \<and> spec_crop_box five_sel (0, 0, 5, 5) (400, 300) = (0, 0, 3, 3)
   \<and> crop_box five_sel (0, 0, 5, 5) (400, 300) \<noteq> spec_crop_box five_sel (0, 0, 5, 5) (400, 300)"
proof -
  have a: "fst (save_crop (py_format (\<lambda>p. None)) all_ok five_sel) =
     Saved ''/pics/base.jpg'' 1 ''base_cr1.jpg'' (0, 0, 2, 2)"
    by (simp add: save_crop_def five_sel_fields five_sel_box base_jpg_name default_name
        all_ok_def get_count_def Let_def)
  have b: "spec_crop_box five_sel (0, 0, 5, 5) (400, 300) = (0, 0, 3, 3)"
    by (simp add: spec_crop_box_def norm_sel_def canvas_to_image_def five_sel_fields
        five_sel_def small_image_fields Let_def)
  from a b five_sel_box show ?thesis by simp
qed

section \<open>Selections that are too small\<close>

lemma flat_box_collapses:
  assumes "crop_box s (x0, y, x1, y) (w, h) = (left, top_y, right, bottom)"
  shows "bottom \<le> top_y"
proof -
  define v where "v = (real_of_int y - real_of_int (offset_y s)) / scale s"
  have "top_y = max 0 (py_int v)" "bottom = min h (py_int v)"
    using assms by (simp_all add: crop_box_def norm_sel_def canvas_to_image_def Let_def v_def)
  then show ?thesis by simp
qed

text \<open>
  Claim C4. With an image loaded and a selection present, the export ends with
  \<open>SelectionTooSmall\<close> exactly when the clamped rectangle has \<open>right \<le> left\<close> or
  \<open>bottom \<le> top\<close>; the state is then returned unchanged, so no file is written, no
  counter is incremented and the selection stays. The selection from \<open>(50, 50)\<close> to
  \<open>(51, 50)\<close> is refused in this way under every transform.
\<close>

theorem selection_too_small:
  assumes "pil_image s = Some img" and "sel s = Some r" and "scale s \<noteq> 0"
    and "crop_box s r img = (left, top_y, right, bottom)"
  shows "(fst (save_crop fmt e s) = SelectionTooSmall \<longleftrightarrow> right \<le> left \<or> bottom \<le> top_y)
       \<and> (fst (save_crop fmt e s) = SelectionTooSmall \<longrightarrow> snd (save_crop fmt e s) = s)
       \<and> (r = (50, 50, 51, 50) \<longrightarrow> fst (save_crop fmt e s) = SelectionTooSmall)"
proof -
  have a: "fst (save_crop fmt e s) = SelectionTooSmall \<longleftrightarrow> right \<le> left \<or> bottom \<le> top_y"
    using assms by (simp add: save_crop_def Let_def split: option.splits)
  have b: "fst (save_crop fmt e s) = SelectionTooSmall \<longrightarrow> snd (save_crop fmt e s) = s"
    using assms by (simp add: save_crop_def Let_def split: option.splits)
  have c: "r = (50, 50, 51, 50) \<longrightarrow> fst (save_crop fmt e s) = SelectionTooSmall"
  proof
    assume r: "r = (50, 50, 51, 50)"
    obtain w h where img: "img = (w, h)" by (cases img)
    from assms(4) r img have "bottom \<le> top_y"
      using flat_box_collapses [of s 50 50 51 w h left top_y right bottom] by simp
    with a show "fst (save_crop fmt e s) = SelectionTooSmall" by simp
  qed
  from a b c show ?thesis by blast
qed

theorem selection_too_small_witness:
  "pil_image flat_sel = Some (1000, 800) \<and> sel flat_sel = Some (50, 50, 51, 50)
   \<and> scale flat_sel \<noteq> 0
   \<and> crop_box flat_sel (50, 50, 51, 50) (1000, 800) = (100, 100, 102, 100)
   \<and> save_crop (py_format (\<lambda>p. None)) all_ok flat_sel = (SelectionTooSmall, flat_sel)
   \<and> written flat_sel = [] \<and> crop_counter flat_sel = Map.empty"
proof -
  have f: "pil_image flat_sel = Some (1000, 800)" "sel flat_sel = Some (50, 50, 51, 50)"
    "scale flat_sel \<noteq> 0" "written flat_sel = []" "crop_counter flat_sel = Map.empty"
    by (simp_all add: flat_sel_def scenario_fields)
  have box: "crop_box flat_sel (50, 50, 51, 50) (1000, 800) = (100, 100, 102, 100)"
    by (simp add: crop_box_def norm_sel_def canvas_to_image_def py_int_def flat_sel_def
        scenario_fields Let_def)
  show ?thesis
    using selection_too_small [where fmt = "py_format (\<lambda>p. None)" and e = all_ok,
        OF f(1) f(2) f(3) box] f box
    by (simp add: prod_eq_iff)
qed

section \<open>The naming pattern falls back\<close>




section \<open>Crop numbers\<close>

text \<open>Only an export touches the counters, and it advances the counter of the active
  path by one when it gets as far as the counter.\<close>

lemma render_image_counter [simp]: "crop_counter (render_image s) = crop_counter s"
  by (simp add: render_image_def Let_def split: option.splits prod.splits)

lemma clear_selection_counter [simp]: "crop_counter (clear_selection s) = crop_counter s"
  by (simp add: clear_selection_def)

lemma on_mouse_down_counter [simp]: "crop_counter (on_mouse_down x y s) = crop_counter s"
  by (simp add: on_mouse_down_def split: option.splits)

lemma on_mouse_drag_counter [simp]: "crop_counter (on_mouse_drag x y s) = crop_counter s"
  by (simp add: on_mouse_drag_def Let_def split: option.splits prod.splits)

lemma on_mouse_up_counter [simp]: "crop_counter (on_mouse_up s) = crop_counter s"
  by (simp add: on_mouse_up_def)

lemma load_image_counter [simp]: "crop_counter (load_image p img s) = crop_counter s"
  by (simp add: load_image_def)

lemma on_canvas_resize_counter [simp]: "crop_counter (on_canvas_resize cs s) = crop_counter s"
  by (simp add: on_canvas_resize_def)







end
